theory Spec2Isabelle
  imports Main "HOL-Library.Sublist"
begin

section \<open>Strings\<close>

text \<open>
  A Python \<open>str\<close> is a sequence of Unicode code points; \<open>len\<close>, slicing and comparison
  count code points. A string is therefore a list of code points, and \<open>u\<close> turns an
  ASCII literal into one. The rupee sign of the price pattern is U+20B9.
\<close>

type_synonym ustr = "nat list"

definition u :: "string \<Rightarrow> ustr" where
  "u s = map of_char s"

definition rupee :: nat where
  "rupee = 8377"

text \<open>
  What the scraper takes from the Python runtime and cannot be written out here: the
  Unicode tables behind \<open>str.lower\<close>, \<open>\d\<close> and \<open>\w\<close> outside ASCII, the checks of
  \<open>urllib.parse.urlsplit\<close> on a bracketed or non-ASCII network location (address
  parsing, NFKC normalisation), and the schemes that a release lists in
  \<open>uses_relative\<close>, \<open>uses_netloc\<close> and \<open>uses_params\<close> beyond the ones named below. They are
  fields of a record that every function using them takes as its first argument;
  inside ASCII everything is defined.
\<close>

record runtime =
  lower_other :: "ustr \<Rightarrow> ustr"
  decimal_other :: "nat \<Rightarrow> bool"
  alnum_other :: "nat \<Rightarrow> bool"
  netloc_rejected :: "ustr \<Rightarrow> bool"
  relative_other :: "ustr \<Rightarrow> bool"
  netloc_other :: "ustr \<Rightarrow> bool"
  params_other :: "ustr \<Rightarrow> bool"

text \<open>A runtime that knows nothing outside ASCII and rejects no network location.\<close>

definition ascii_runtime :: runtime where
  "ascii_runtime = \<lparr> lower_other = (\<lambda>s. s), decimal_other = (\<lambda>c. False),
     alnum_other = (\<lambda>c. False), netloc_rejected = (\<lambda>s. False),
     relative_other = (\<lambda>s. False), netloc_other = (\<lambda>s. False),
     params_other = (\<lambda>s. False) \<rparr>"

text \<open>
  The code points \<open>str.strip()\<close> removes and \<open>\s\<close> matches (\<open>str.isspace\<close>).
\<close>

definition is_space :: "nat \<Rightarrow> bool" where
  "is_space c \<longleftrightarrow>
     (9 \<le> c \<and> c \<le> 13) \<or> (28 \<le> c \<and> c \<le> 32) \<or> c = 133 \<or> c = 160 \<or> c = 5760
     \<or> (8192 \<le> c \<and> c \<le> 8202) \<or> c = 8232 \<or> c = 8233 \<or> c = 8239 \<or> c = 8287
     \<or> c = 12288"

definition is_ascii :: "nat \<Rightarrow> bool" where
  "is_ascii c \<longleftrightarrow> c < 128"

definition is_ascii_upper :: "nat \<Rightarrow> bool" where
  "is_ascii_upper c \<longleftrightarrow> 65 \<le> c \<and> c \<le> 90"

definition is_ascii_lower :: "nat \<Rightarrow> bool" where
  "is_ascii_lower c \<longleftrightarrow> 97 \<le> c \<and> c \<le> 122"

definition is_ascii_digit :: "nat \<Rightarrow> bool" where
  "is_ascii_digit c \<longleftrightarrow> 48 \<le> c \<and> c \<le> 57"

definition ascii_lower :: "nat \<Rightarrow> nat" where
  "ascii_lower c = (if is_ascii_upper c then c + 32 else c)"

text \<open>\<open>\d\<close> and \<open>\w\<close> of a \<open>str\<close> pattern.\<close>

definition is_digit :: "runtime \<Rightarrow> nat \<Rightarrow> bool" where
  "is_digit R c = (if is_ascii c then is_ascii_digit c else decimal_other R c)"

definition is_word :: "runtime \<Rightarrow> nat \<Rightarrow> bool" where
  "is_word R c =
     (if is_ascii c then is_ascii_digit c \<or> is_ascii_upper c \<or> is_ascii_lower c \<or> c = 95
      else alnum_other R c)"

text \<open>\<open>s.lower()\<close>.\<close>

definition lower :: "runtime \<Rightarrow> ustr \<Rightarrow> ustr" where
  "lower R s = (if list_all is_ascii s then map ascii_lower s else lower_other R s)"

text \<open>\<open>s.strip()\<close>, \<open>s.lstrip(chars)\<close> and \<open>s.strip(chars)\<close>.\<close>

definition strip :: "ustr \<Rightarrow> ustr" where
  "strip s = rev (dropWhile is_space (rev (dropWhile is_space s)))"

definition lstrip_chars :: "(nat \<Rightarrow> bool) \<Rightarrow> ustr \<Rightarrow> ustr" where
  "lstrip_chars P s = dropWhile P s"

definition strip_chars :: "(nat \<Rightarrow> bool) \<Rightarrow> ustr \<Rightarrow> ustr" where
  "strip_chars P s = rev (dropWhile P (rev (dropWhile P s)))"

text \<open>\<open>s.startswith(p)\<close>, \<open>s.endswith(p)\<close> and \<open>p in s\<close>.\<close>

definition startswith :: "ustr \<Rightarrow> ustr \<Rightarrow> bool" where
  "startswith s p \<longleftrightarrow> take (length p) s = p"

definition endswith :: "ustr \<Rightarrow> ustr \<Rightarrow> bool" where
  "endswith s p \<longleftrightarrow> length p \<le> length s \<and> drop (length s - length p) s = p"

fun contains :: "ustr \<Rightarrow> ustr \<Rightarrow> bool" where
  "contains [] p = (p = [])"
| "contains (c # cs) p = (startswith (c # cs) p \<or> contains cs p)"

text \<open>
  \<open>s.split(sep)\<close> for a separator of one code point, and \<open>s.split(sep, 1)\<close> for a
  non-empty separator: the text before and after its first occurrence, or \<open>s\<close> alone
  when there is none.
\<close>

fun split_char :: "nat \<Rightarrow> ustr \<Rightarrow> ustr list" where
  "split_char d [] = [[]]"
| "split_char d (c # cs) =
     (if c = d then [] # split_char d cs
      else (case split_char d cs of [] \<Rightarrow> [[c]] | w # ws \<Rightarrow> (c # w) # ws))"

fun find_sub :: "ustr \<Rightarrow> ustr \<Rightarrow> (ustr \<times> ustr) option" where
  "find_sub sep [] = None"
| "find_sub sep (c # cs) =
     (if startswith (c # cs) sep then Some ([], drop (length sep) (c # cs))
      else (case find_sub sep cs of None \<Rightarrow> None | Some (b, a) \<Rightarrow> Some (c # b, a)))"

definition split1 :: "ustr \<Rightarrow> ustr \<Rightarrow> ustr list" where
  "split1 sep s = (case find_sub sep s of None \<Rightarrow> [s] | Some (b, a) \<Rightarrow> [b, a])"

text \<open>\<open>sep.join(parts)\<close>.\<close>

fun join :: "ustr \<Rightarrow> ustr list \<Rightarrow> ustr" where
  "join sep [] = []"
| "join sep [p] = p"
| "join sep (p # q # ps) = p @ sep @ join sep (q # ps)"

section \<open>The standard library's URL functions\<close>

text \<open>
  \<open>urllib.parse\<close> as CPython 3.12 implements it, for \<open>str\<close> arguments. \<open>None\<close> is the
  \<open>ValueError\<close> that \<open>urlsplit\<close> raises on a network location it does not accept.
\<close>

record split_result =
  sr_scheme :: ustr
  sr_netloc :: ustr
  sr_path :: ustr
  sr_query :: ustr
  sr_fragment :: ustr

record parse_result =
  pr_scheme :: ustr
  pr_netloc :: ustr
  pr_path :: ustr
  pr_params :: ustr
  pr_query :: ustr
  pr_fragment :: ustr

definition uses_relative :: "runtime \<Rightarrow> ustr \<Rightarrow> bool" where
  "uses_relative R s \<longleftrightarrow>
     s \<in> set (map u ['''', ''ftp'', ''http'', ''gopher'', ''nntp'', ''imap'', ''wais'', ''file'',
       ''https'', ''shttp'', ''mms'', ''prospero'', ''rtsp'', ''rtspu'', ''sftp'', ''svn'',
       ''svn+ssh'', ''ws'', ''wss'']) \<or> relative_other R s"

definition uses_netloc :: "runtime \<Rightarrow> ustr \<Rightarrow> bool" where
  "uses_netloc R s \<longleftrightarrow>
     s \<in> set (map u ['''', ''ftp'', ''http'', ''gopher'', ''nntp'', ''telnet'', ''imap'', ''wais'',
       ''file'', ''mms'', ''https'', ''shttp'', ''snews'', ''prospero'', ''rtsp'', ''rtspu'',
       ''rsync'', ''svn'', ''svn+ssh'', ''sftp'', ''nfs'', ''git'', ''git+ssh'', ''ws'', ''wss''])
     \<or> netloc_other R s"

definition uses_params :: "runtime \<Rightarrow> ustr \<Rightarrow> bool" where
  "uses_params R s \<longleftrightarrow>
     s \<in> set (map u ['''', ''ftp'', ''hdl'', ''prospero'', ''http'', ''imap'', ''https'', ''shttp'',
       ''rtsp'', ''rtspu'', ''sip'', ''sips'', ''mms'', ''sftp'', ''tel'']) \<or> params_other R s"

text \<open>
  \<open>scheme_chars\<close>; the code points \<open>urlsplit\<close> strips from the left of a URL (C0 controls
  and space) and the ones it removes everywhere (tab, line feed, carriage return).
\<close>

definition scheme_char :: "nat \<Rightarrow> bool" where
  "scheme_char c \<longleftrightarrow>
     is_ascii_lower c \<or> is_ascii_upper c \<or> is_ascii_digit c \<or> c = 43 \<or> c = 45 \<or> c = 46"

definition c0_or_space :: "nat \<Rightarrow> bool" where
  "c0_or_space c \<longleftrightarrow> c \<le> 32"

definition unsafe_byte :: "nat \<Rightarrow> bool" where
  "unsafe_byte c \<longleftrightarrow> c = 9 \<or> c = 10 \<or> c = 13"

text \<open>
  The scheme of a URL and what follows its colon: \<open>url.find(':') > 0\<close>, an ASCII letter
  first, and scheme characters only before the colon; otherwise the default scheme
  and the whole URL.
\<close>

definition split_scheme :: "ustr \<Rightarrow> ustr \<Rightarrow> ustr \<times> ustr" where
  "split_scheme dflt url =
     (let pre = takeWhile (\<lambda>c. c \<noteq> 58) url in
      if length pre < length url \<and> pre \<noteq> []
         \<and> (is_ascii_lower (hd url) \<or> is_ascii_upper (hd url)) \<and> list_all scheme_char pre
      then (map ascii_lower pre, drop (length pre + 1) url)
      else (dflt, url))"

text \<open>\<open>_splitnetloc(url, 2)\<close> when the URL starts with two slashes.\<close>

definition netloc_delim :: "nat \<Rightarrow> bool" where
  "netloc_delim c \<longleftrightarrow> c = 47 \<or> c = 63 \<or> c = 35"

definition split_netloc :: "ustr \<Rightarrow> ustr \<times> ustr" where
  "split_netloc url =
     (if take 2 url = u ''//''
      then (takeWhile (\<lambda>c. \<not> netloc_delim c) (drop 2 url),
            dropWhile (\<lambda>c. \<not> netloc_delim c) (drop 2 url))
      else ([], url))"

text \<open>
  The checks that raise \<open>ValueError\<close>: one bracket without the other; the validation of
  a bracketed host and of a non-ASCII network location is the runtime's.
\<close>

definition netloc_error :: "runtime \<Rightarrow> ustr \<Rightarrow> bool" where
  "netloc_error R netloc \<longleftrightarrow>
     (91 \<in> set netloc) \<noteq> (93 \<in> set netloc)
     \<or> ((91 \<in> set netloc \<or> \<not> list_all is_ascii netloc) \<and> netloc_rejected R netloc)"

text \<open>\<open>before, after = s.split(c, 1)\<close> when \<open>c in s\<close>, and \<open>(s, '')\<close> otherwise.\<close>

definition cut_at :: "nat \<Rightarrow> ustr \<Rightarrow> ustr \<times> ustr" where
  "cut_at c s = (takeWhile (\<lambda>x. x \<noteq> c) s, drop 1 (dropWhile (\<lambda>x. x \<noteq> c) s))"

definition urlsplit :: "runtime \<Rightarrow> ustr \<Rightarrow> ustr \<Rightarrow> split_result option" where
  "urlsplit R url0 scheme0 =
     (let url1 = filter (\<lambda>c. \<not> unsafe_byte c) (lstrip_chars c0_or_space url0);
          dflt = filter (\<lambda>c. \<not> unsafe_byte c) (strip_chars c0_or_space scheme0);
          (scheme, url2) = split_scheme dflt url1;
          (netloc, url3) = split_netloc url2;
          (url4, fragment) = cut_at 35 url3;
          (path, query) = cut_at 63 url4
      in if netloc_error R netloc then None
         else Some \<lparr> sr_scheme = scheme, sr_netloc = netloc, sr_path = path,
                     sr_query = query, sr_fragment = fragment \<rparr>)"

text \<open>
  \<open>_splitparams\<close>: the parameters follow the first semicolon of the last path segment.
\<close>

definition splitparams :: "ustr \<Rightarrow> ustr \<times> ustr" where
  "splitparams url =
     (let last_seg = rev (takeWhile (\<lambda>c. c \<noteq> 47) (rev url));
          front = take (length url - length last_seg) url
      in if 59 \<in> set last_seg
         then (front @ takeWhile (\<lambda>c. c \<noteq> 59) last_seg,
               drop 1 (dropWhile (\<lambda>c. c \<noteq> 59) last_seg))
         else (url, []))"

definition urlparse :: "runtime \<Rightarrow> ustr \<Rightarrow> ustr \<Rightarrow> parse_result option" where
  "urlparse R url scheme0 =
     (case urlsplit R url scheme0 of
        None \<Rightarrow> None
      | Some sr \<Rightarrow>
          (let (path, params) =
                 (if uses_params R (sr_scheme sr) \<and> 59 \<in> set (sr_path sr)
                  then splitparams (sr_path sr) else (sr_path sr, []))
           in Some \<lparr> pr_scheme = sr_scheme sr, pr_netloc = sr_netloc sr, pr_path = path,
                       pr_params = params, pr_query = sr_query sr,
                       pr_fragment = sr_fragment sr \<rparr>))"

definition urlunsplit :: "runtime \<Rightarrow> split_result \<Rightarrow> ustr" where
  "urlunsplit R sr =
     (let url1 = (if sr_netloc sr \<noteq> []
                     \<or> (sr_scheme sr \<noteq> [] \<and> uses_netloc R (sr_scheme sr)
                         \<and> take 2 (sr_path sr) \<noteq> u ''//'')
                  then u ''//'' @ sr_netloc sr
                       @ (if sr_path sr \<noteq> [] \<and> take 1 (sr_path sr) \<noteq> u ''/''
                          then u ''/'' @ sr_path sr else sr_path sr)
                  else sr_path sr);
          url2 = (if sr_scheme sr \<noteq> [] then sr_scheme sr @ u '':'' @ url1 else url1);
          url3 = (if sr_query sr \<noteq> [] then url2 @ u ''?'' @ sr_query sr else url2)
      in if sr_fragment sr \<noteq> [] then url3 @ u ''#'' @ sr_fragment sr else url3)"

definition urlunparse :: "runtime \<Rightarrow> parse_result \<Rightarrow> ustr" where
  "urlunparse R pr =
     urlunsplit R \<lparr> sr_scheme = pr_scheme pr, sr_netloc = pr_netloc pr,
       sr_path = (if pr_params pr \<noteq> [] then pr_path pr @ u '';'' @ pr_params pr
                  else pr_path pr),
       sr_query = pr_query pr, sr_fragment = pr_fragment pr \<rparr>"

text \<open>
  The path resolution of \<open>urljoin\<close>: the loop over the segments, with \<open>..\<close> popping the
  last resolved segment (and ignored on an empty list) and \<open>.\<close> skipped.
\<close>

fun resolve_segments :: "ustr list \<Rightarrow> ustr list \<Rightarrow> ustr list" where
  "resolve_segments resolved [] = resolved"
| "resolve_segments resolved (seg # segs) =
     (if seg = u ''..'' then resolve_segments (butlast resolved) segs
      else if seg = u ''.'' then resolve_segments resolved segs
      else resolve_segments (resolved @ [seg]) segs)"

text \<open>\<open>segments[1:-1] = filter(None, segments[1:-1])\<close>.\<close>

definition drop_empty_inner :: "ustr list \<Rightarrow> ustr list" where
  "drop_empty_inner segs =
     (if length segs \<le> 2 then segs
      else hd segs # filter (\<lambda>s. s \<noteq> []) (butlast (tl segs)) @ [last segs])"

definition join_path :: "ustr \<Rightarrow> ustr \<Rightarrow> ustr" where
  "join_path bpath path =
     (let parts = split_char 47 bpath;
          base_parts = (if last parts \<noteq> [] then butlast parts else parts);
          segments = (if take 1 path = u ''/'' then split_char 47 path
                      else drop_empty_inner (base_parts @ split_char 47 path));
          resolved = resolve_segments [] segments;
          resolved_path = (if last segments = u ''.'' \<or> last segments = u ''..''
                           then resolved @ [[]] else resolved)
      in if join (u ''/'') resolved_path = [] then u ''/'' else join (u ''/'') resolved_path)"

definition urljoin :: "runtime \<Rightarrow> ustr \<Rightarrow> ustr \<Rightarrow> ustr option" where
  "urljoin R base url =
     (if base = [] then Some url
      else if url = [] then Some base
      else case urlparse R base [] of
        None \<Rightarrow> None
      | Some b \<Rightarrow>
         (case urlparse R url (pr_scheme b) of
            None \<Rightarrow> None
          | Some p \<Rightarrow>
              if pr_scheme p \<noteq> pr_scheme b \<or> \<not> uses_relative R (pr_scheme p) then Some url
              else if uses_netloc R (pr_scheme p) \<and> pr_netloc p \<noteq> []
              then Some (urlunparse R p)
              else let netloc = (if uses_netloc R (pr_scheme p) then pr_netloc b
                                 else pr_netloc p)
              in if pr_path p = [] \<and> pr_params p = []
                 then Some (urlunparse R (p \<lparr> pr_netloc := netloc, pr_path := pr_path b,
                        pr_params := pr_params b,
                        pr_query := (if pr_query p = [] then pr_query b else pr_query p) \<rparr>))
                 else Some (urlunparse R (p \<lparr> pr_netloc := netloc,
                        pr_path := join_path (pr_path b) (pr_path p) \<rparr>))))"

section \<open>URL normalisation and link classification\<close>

text \<open>
  An exception that leaves a function of the scraper: the \<open>ValueError\<close> of \<open>urljoin\<close>,
  or the error of a navigation (\<open>page.goto\<close>), identified by a number.
\<close>

datatype error = ValueError | NavigationError nat

definition urljoin_or_raise :: "runtime \<Rightarrow> ustr \<Rightarrow> ustr \<Rightarrow> error + ustr" where
  "urljoin_or_raise R base href =
     (case urljoin R base href of None \<Rightarrow> Inl ValueError | Some r \<Rightarrow> Inr r)"

text \<open>
  \<^verbatim>\<open>
  def normalize_any_url(href, base_url):
      if not href:
          return ""
      href = href.strip()
      if href.startswith("//"):
          return "https:" + href
      if href.startswith("http"):
          return href
      return urljoin(base_url, href)
  \<close>
\<close>

definition normalize_any_url :: "runtime \<Rightarrow> ustr \<Rightarrow> ustr \<Rightarrow> error + ustr" where
  "normalize_any_url R href0 base_url =
     (if href0 = [] then Inr []
      else let href = strip href0 in
        if startswith href (u ''//'') then Inr (u ''https:'' @ href)
        else if startswith href (u ''http'') then Inr href
        else urljoin_or_raise R base_url href)"

definition www_root :: ustr where
  "www_root = u ''https://www.indiamart.com/''"

definition dir_root :: ustr where
  "dir_root = u ''https://dir.indiamart.com/''"

text \<open>
  \<^verbatim>\<open>
  def normalize_indiamart_url(href, page_url=None):
      if not href:
          return ""
      href = href.strip()
      if href.startswith("//") or href.startswith("http"):
          return normalize_any_url(href, "https://www.indiamart.com/")
      if href.startswith("/impcat/") or href.startswith("impcat/"):
          return normalize_any_url(href, "https://dir.indiamart.com/")
      if href.startswith("/proddetail/") or href.startswith("proddetail/"):
          return normalize_any_url(href, "https://www.indiamart.com/")
      if href.startswith("/company/") or href.startswith("company/"):
          return normalize_any_url(href, "https://www.indiamart.com/")
      if href.startswith("/"):
          return normalize_any_url(href, "https://www.indiamart.com/")
      if page_url:
          return normalize_any_url(href, page_url)
      return normalize_any_url(href, "https://www.indiamart.com/")
  \<close>
\<close>

definition normalize_indiamart_url :: "runtime \<Rightarrow> ustr \<Rightarrow> ustr option \<Rightarrow> error + ustr" where
  "normalize_indiamart_url R href0 page_url =
     (if href0 = [] then Inr []
      else let href = strip href0 in
        if startswith href (u ''//'') \<or> startswith href (u ''http'')
        then normalize_any_url R href www_root
        else if startswith href (u ''/impcat/'') \<or> startswith href (u ''impcat/'')
        then normalize_any_url R href dir_root
        else if startswith href (u ''/proddetail/'') \<or> startswith href (u ''proddetail/'')
        then normalize_any_url R href www_root
        else if startswith href (u ''/company/'') \<or> startswith href (u ''company/'')
        then normalize_any_url R href www_root
        else if startswith href (u ''/'')
        then normalize_any_url R href www_root
        else (case page_url of
                Some p \<Rightarrow> if p \<noteq> [] then normalize_any_url R href p
                          else normalize_any_url R href www_root
              | None \<Rightarrow> normalize_any_url R href www_root))"

text \<open>
  \<^verbatim>\<open>
  def looks_like_supplier_url(url):
      try:
          parsed = urlparse(url)
      except Exception:
          return False
      host = (parsed.netloc or "").lower()
      if not host.endswith("indiamart.com"):
          return False
      path = (parsed.path or "").strip("/").lower()
      if not path:
          return False
      first = path.split("/", 1)[0]
      if first in {"proddetail", "impcat", "search"}:
          return False
      if first == "company":
          return True
      return len(path.split("/")) == 1
  \<close>
\<close>

definition reserved_segments :: "ustr set" where
  "reserved_segments = {u ''proddetail'', u ''impcat'', u ''search''}"

definition looks_like_supplier_url :: "runtime \<Rightarrow> ustr \<Rightarrow> bool" where
  "looks_like_supplier_url R url =
     (case urlparse R url [] of
        None \<Rightarrow> False
      | Some parsed \<Rightarrow>
          (let host = lower R (pr_netloc parsed) in
           if \<not> endswith host (u ''indiamart.com'') then False
           else let path = lower R (strip_chars (\<lambda>c. c = 47) (pr_path parsed)) in
             if path = [] then False
             else let first = hd (split1 (u ''/'') path) in
               if first \<in> reserved_segments then False
               else if first = u ''company'' then True
               else length (split_char 47 path) = 1))"




section \<open>Field extractors\<close>

text \<open>
  The regular expressions of the price pattern: a code point of a class, a greedy
  \<open>*\<close> or \<open>+\<close> over a class, an optional group, sequence and alternation. \<open>ends r s\<close>
  lists what is left of \<open>s\<close> after each way \<open>r\<close> matches a prefix of it, in the order a
  backtracking matcher tries them (greedy first, left alternative first); the first
  one is the match \<open>re\<close> reports at that position, and \<open>re.search\<close> takes the
  leftmost position that has one.
\<close>

datatype rx =
    Chr "nat \<Rightarrow> bool"
  | Star "nat \<Rightarrow> bool"
  | Plus "nat \<Rightarrow> bool"
  | Opt rx
  | Seq rx rx
  | Alt rx rx

fun ends :: "rx \<Rightarrow> ustr \<Rightarrow> ustr list" where
  "ends (Chr P) [] = []"
| "ends (Chr P) (c # cs) = (if P c then [cs] else [])"
| "ends (Star P) [] = [[]]"
| "ends (Star P) (c # cs) = (if P c then ends (Star P) cs @ [c # cs] else [c # cs])"
| "ends (Plus P) [] = []"
| "ends (Plus P) (c # cs) = (if P c then ends (Star P) cs else [])"
| "ends (Opt r) s = ends r s @ [s]"
| "ends (Seq a b) s = concat (map (ends b) (ends a s))"
| "ends (Alt a b) s = ends a s @ ends b s"

definition match_at :: "rx \<Rightarrow> ustr \<Rightarrow> ustr option" where
  "match_at r s =
     (case ends r s of [] \<Rightarrow> None | rest # _ \<Rightarrow> Some (take (length s - length rest) s))"

fun re_search :: "rx \<Rightarrow> ustr \<Rightarrow> ustr option" where
  "re_search r [] = match_at r []"
| "re_search r (c # cs) =
     (case match_at r (c # cs) of Some m \<Rightarrow> Some m | None \<Rightarrow> re_search r cs)"

text \<open>
  \<^verbatim>\<open>r"<U+20B9>\s*[\d,]+(?:\s*/\s*\w+)?|Rs\.?\s*[\d,]+"\<close> with \<open>re.IGNORECASE\<close>. Only the letters
  of \<open>Rs\<close> have case variants: \<open>R\<close> matches \<open>R\<close> and \<open>r\<close>, and \<open>s\<close> matches \<open>S\<close>, \<open>s\<close> and the
  long s (U+017F), which a \<open>str\<close> pattern equates with \<open>s\<close>.
\<close>

definition digit_or_comma :: "runtime \<Rightarrow> nat \<Rightarrow> bool" where
  "digit_or_comma R c \<longleftrightarrow> is_digit R c \<or> c = 44"

definition price_pattern :: "runtime \<Rightarrow> rx" where
  "price_pattern R =
     Alt (Seq (Chr (\<lambda>c. c = rupee))
           (Seq (Star is_space)
             (Seq (Plus (digit_or_comma R))
               (Opt (Seq (Star is_space)
                      (Seq (Chr (\<lambda>c. c = 47))
                        (Seq (Star is_space) (Plus (is_word R)))))))))
         (Seq (Chr (\<lambda>c. c = 82 \<or> c = 114))
           (Seq (Chr (\<lambda>c. c = 83 \<or> c = 115 \<or> c = 383))
             (Seq (Opt (Chr (\<lambda>c. c = 46)))
               (Seq (Star is_space) (Plus (digit_or_comma R))))))"

text \<open>
  \<^verbatim>\<open>
  def extract_price(text):
      if not text:
          return ""
      match = re.search(r"...", text, re.IGNORECASE)
      if not match:
          return ""
      s = match.group(0).strip()
      return s.split("\n")[0].strip() if s else ""
  \<close>
\<close>

definition extract_price :: "runtime \<Rightarrow> ustr \<Rightarrow> ustr" where
  "extract_price R text =
     (if text = [] then []
      else case re_search (price_pattern R) text of
        None \<Rightarrow> []
      | Some m \<Rightarrow> (let s = strip m in if s = [] then [] else strip (hd (split_char 10 s))))"

text \<open>
  \<^verbatim>\<open>
  def extract_location(text):
      if not text or "Contact Supplier" not in text:
          return ""
      parts = text.split("Contact Supplier", 1)
      if len(parts) < 2:
          return ""
      after = parts[1].strip()
      lines = [l.strip() for l in after.split("\n") if l.strip()]
      return lines[0] if lines else ""
  \<close>
\<close>

definition contact_supplier :: ustr where
  "contact_supplier = u ''Contact Supplier''"

definition extract_location :: "ustr \<Rightarrow> ustr" where
  "extract_location text =
     (if text = [] \<or> \<not> contains text contact_supplier then []
      else let parts = split1 contact_supplier text in
        if length parts < 2 then []
        else let after = strip (parts ! 1);
                 lines = map strip (filter (\<lambda>l. strip l \<noteq> []) (split_char 10 after))
             in (case lines of [] \<Rightarrow> [] | l # _ \<Rightarrow> l))"

text \<open>The block text of the specification's example, with its rupee sign.\<close>

definition example_block :: ustr where
  "example_block =
     u ''Hydraulic Press'' @ [10] @ [rupee] @ u '' 1,25,000/Unit'' @ [10] @ u ''Mumbai'' @ [10]
     @ u ''Contact Supplier'' @ [10] @ u ''ABC Traders'' @ [10] @ u ''Mumbai, Maharashtra''"

section \<open>Listings and the final deduplication pass\<close>

text \<open>
  The dictionary appended to \<open>rows\<close> in \<open>scrape_category\<close>, with the key
  \<open>scraped_at\<close> that \<open>main\<close> adds before the deduplication pass.
\<close>

record listing =
  row_title :: ustr
  row_price :: ustr
  row_supplier :: ustr
  row_location :: ustr
  row_category :: ustr
  row_url :: ustr
  row_scraped_at :: ustr

text \<open>
  \<^verbatim>\<open>
  seen = set()
  unique = []
  for r in all_rows:
      if r["url"] not in seen:
          seen.add(r["url"])
          unique.append(r)
  \<close>
  The loop, with its two variables \<open>seen\<close> and \<open>unique\<close> as explicit state.
\<close>

fun dedup_loop :: "ustr set \<Rightarrow> listing list \<Rightarrow> listing list \<Rightarrow> listing list" where
  "dedup_loop seen unique [] = unique"
| "dedup_loop seen unique (r # rs) =
     (if row_url r \<notin> seen then dedup_loop (insert (row_url r) seen) (unique @ [r]) rs
      else dedup_loop seen unique rs)"

definition deduplicate :: "listing list \<Rightarrow> listing list" where
  "deduplicate all_rows = dedup_loop {} [] all_rows"

text \<open>The first record of a list that carries a given url.\<close>

fun first_with_url :: "ustr \<Rightarrow> listing list \<Rightarrow> listing option" where
  "first_with_url k [] = None"
| "first_with_url k (r # rs) = (if row_url r = k then Some r else first_with_url k rs)"

section \<open>Parsed documents\<close>

text \<open>
  What the scraper reads of a BeautifulSoup tree: text nodes, and elements with their
  tag name, their \<open>href\<close> attribute, their \<open>rel\<close> attribute (which BeautifulSoup keeps
  as the list of its whitespace-separated tokens) and their children. The document
  itself is the element named \<open>[document]\<close>. A node is identified by its path, the
  child indices from the document down to it, so that \<open>x is a\<close> is equality of
  paths and \<open>x.parent\<close> drops the last index; the document has no parent.
\<close>

datatype node = Text ustr | Elem ustr "ustr option" "ustr list option" "node list"

type_synonym path = "nat list"

fun tag_of :: "node \<Rightarrow> ustr" where
  "tag_of (Text s) = []"
| "tag_of (Elem t h r ks) = t"

fun href_of :: "node \<Rightarrow> ustr option" where
  "href_of (Text s) = None"
| "href_of (Elem t h r ks) = h"

fun rel_of :: "node \<Rightarrow> ustr list option" where
  "rel_of (Text s) = None"
| "rel_of (Elem t h r ks) = r"

fun node_at :: "node \<Rightarrow> path \<Rightarrow> node option" where
  "node_at n [] = Some n"
| "node_at (Text s) (i # p) = None"
| "node_at (Elem t h r ks) (i # p) = (if i < length ks then node_at (ks ! i) p else None)"

definition parent_of :: "path \<Rightarrow> path option" where
  "parent_of p = (if p = [] then None else Some (butlast p))"

text \<open>
  The descendants of a node in document order, each with its path below the node.
\<close>

fun descendants :: "node \<Rightarrow> (path \<times> node) list"
  and descendants_from :: "nat \<Rightarrow> node list \<Rightarrow> (path \<times> node) list" where
  "descendants (Text s) = []"
| "descendants (Elem t h r ks) = descendants_from 0 ks"
| "descendants_from i [] = []"
| "descendants_from i (k # ks) =
     ([i], k) # map (\<lambda>(p, n). (i # p, n)) (descendants k) @ descendants_from (Suc i) ks"

text \<open>
  \<open>x.find_all("a", href=...)\<close> for the element at path \<open>pp\<close> of the document: the paths
  of the \<open>a\<close> elements below it whose \<open>href\<close> passes the filter, in document order.
  \<open>href=True\<close> accepts every present attribute, and the compiled pattern
  \<open>indiamart\.com/proddetail/\<close> is searched in the attribute's value.
\<close>

definition find_all_a :: "node \<Rightarrow> path \<Rightarrow> (ustr option \<Rightarrow> bool) \<Rightarrow> path list" where
  "find_all_a soup pp accept =
     (case node_at soup pp of
        None \<Rightarrow> []
      | Some x \<Rightarrow>
          map (\<lambda>(p, n). pp @ p)
            (filter (\<lambda>(p, n). tag_of n = u ''a'' \<and> accept (href_of n)) (descendants x)))"

definition href_present :: "ustr option \<Rightarrow> bool" where
  "href_present h \<longleftrightarrow> h \<noteq> None"

definition proddetail_re :: "ustr option \<Rightarrow> bool" where
  "proddetail_re h \<longleftrightarrow>
     (case h of None \<Rightarrow> False | Some v \<Rightarrow> contains v (u ''indiamart.com/proddetail/''))"

text \<open>\<open>x.get("href", "")\<close> for an element found with an \<open>href\<close> filter.\<close>

definition get_href :: "node \<Rightarrow> path \<Rightarrow> ustr" where
  "get_href soup p =
     (case node_at soup p of
        None \<Rightarrow> []
      | Some x \<Rightarrow> (case href_of x of None \<Rightarrow> [] | Some h \<Rightarrow> h))"

definition tag_at :: "node \<Rightarrow> path \<Rightarrow> ustr" where
  "tag_at soup p = (case node_at soup p of None \<Rightarrow> [] | Some x \<Rightarrow> tag_of x)"

text \<open>
  \<open>x.get_text(separator, strip=True)\<close>: the text nodes below the element, each stripped,
  the empty ones dropped, joined by the separator.
\<close>

fun text_of :: "node \<Rightarrow> ustr option" where
  "text_of (Text s) = Some s"
| "text_of (Elem t h r ks) = None"

definition all_strings :: "node \<Rightarrow> ustr list" where
  "all_strings x = List.map_filter (\<lambda>(p, n). text_of n) (descendants x)"

definition get_text :: "ustr \<Rightarrow> node \<Rightarrow> ustr" where
  "get_text sep x = join sep (filter (\<lambda>s. s \<noteq> []) (map strip (all_strings x)))"

definition get_text_at :: "node \<Rightarrow> path \<Rightarrow> ustr \<Rightarrow> ustr" where
  "get_text_at soup p sep = (case node_at soup p of None \<Rightarrow> [] | Some x \<Rightarrow> get_text sep x)"

section \<open>Pagination\<close>

text \<open>
  The argument of the \<open>rel\<close> filter: \<open>None\<close>, a string or a list.
  \<^verbatim>\<open>
  lambda v: v and ("next" in v if isinstance(v, list) else "next" in str(v).lower())
  \<close>
\<close>

datatype attr_arg = ANone | AStr ustr | AList "ustr list"

fun rel_is_next :: "runtime \<Rightarrow> attr_arg \<Rightarrow> bool" where
  "rel_is_next R ANone = False"
| "rel_is_next R (AStr s) = (s \<noteq> [] \<and> contains (lower R s) (u ''next''))"
| "rel_is_next R (AList l) = (l \<noteq> [] \<and> u ''next'' \<in> set l)"

text \<open>
  How BeautifulSoup applies a function to an attribute: to \<open>None\<close> when the attribute is
  absent, and for a list-valued attribute to each token, then to the tokens joined by
  a space.
\<close>

definition attr_matches :: "(attr_arg \<Rightarrow> bool) \<Rightarrow> ustr list option \<Rightarrow> bool" where
  "attr_matches f v =
     (case v of
        None \<Rightarrow> f ANone
      | Some l \<Rightarrow> list_ex (\<lambda>item. f (AStr item)) l \<or> f (AStr (join (u '' '') l)))"

text \<open>\<open>soup.find("a", attrs={"rel": ...})\<close>: the first match in document order.\<close>

definition find_rel_next :: "runtime \<Rightarrow> node \<Rightarrow> node option" where
  "find_rel_next R soup =
     (case filter (\<lambda>(p, n). tag_of n = u ''a'' \<and> attr_matches (rel_is_next R) (rel_of n))
             (descendants soup) of
        [] \<Rightarrow> None
      | (p, n) # _ \<Rightarrow> Some n)"

text \<open>
  The texts of a next link: \<open>next\<close>, \<open>next >\<close>, \<open>next\<close> followed by a right guillemet
  (U+00BB), the single right angle quotation mark (U+203A), the guillemet alone, and
  \<open>>\<close>.
\<close>

definition next_texts :: "ustr set" where
  "next_texts = {u ''next'', u ''next >'', u ''next '' @ [187], [8250], [187], u ''>''}"

text \<open>
  \<^verbatim>\<open>
  for a in soup.find_all("a", href=True):
      text = (a.get_text(" ", strip=True) or "").strip().lower()
      if text in {...} or text.startswith("next"):
          candidate = normalize_any_url(a.get("href", ""), current_url)
          if candidate and candidate != current_url:
              return candidate
  return None
  \<close>
\<close>

fun next_by_text :: "runtime \<Rightarrow> node \<Rightarrow> ustr \<Rightarrow> path list \<Rightarrow> error + ustr option" where
  "next_by_text R soup current_url [] = Inr None"
| "next_by_text R soup current_url (a # as) =
     (let text = lower R (strip (get_text_at soup a (u '' ''))) in
      if text \<in> next_texts \<or> startswith text (u ''next'')
      then (case normalize_any_url R (get_href soup a) current_url of
              Inl e \<Rightarrow> Inl e
            | Inr candidate \<Rightarrow>
                if candidate \<noteq> [] \<and> candidate \<noteq> current_url then Inr (Some candidate)
                else next_by_text R soup current_url as)
      else next_by_text R soup current_url as)"

text \<open>
  \<^verbatim>\<open>
  def find_next_page_url(soup, current_url):
      next_link = soup.find("a", attrs={"rel": lambda v: ...})
      if next_link and next_link.get("href"):
          nxt = next_link.get("href")
          if isinstance(nxt, str) and nxt.strip():
              return normalize_any_url(nxt, current_url)
      for a in soup.find_all("a", href=True):
          ...
      return None
  \<close>
\<close>

definition rel_next_href :: "runtime \<Rightarrow> node \<Rightarrow> ustr option" where
  "rel_next_href R soup =
     (case find_rel_next R soup of
        None \<Rightarrow> None
      | Some next_link \<Rightarrow>
          (case href_of next_link of
             None \<Rightarrow> None
           | Some nxt \<Rightarrow> if nxt \<noteq> [] \<and> strip nxt \<noteq> [] then Some nxt else None))"

definition find_next_page_url :: "runtime \<Rightarrow> node \<Rightarrow> ustr \<Rightarrow> error + ustr option" where
  "find_next_page_url R soup current_url =
     (case rel_next_href R soup of
        Some nxt \<Rightarrow>
          (case normalize_any_url R nxt current_url of
             Inl e \<Rightarrow> Inl e
           | Inr r \<Rightarrow> Inr (Some r))
      | None \<Rightarrow> next_by_text R soup current_url (find_all_a soup [] href_present))"

section \<open>Navigation with retries\<close>

text \<open>
  The browser page is an oracle: the outcome of the \<open>n\<close>-th call of \<open>page.goto\<close> of a
  run on a URL is either an exception, identified by a number, or the document that
  \<open>page.content()\<close> then parses to (the wait after a successful load belongs to the
  attempt). The state of the page is the number of calls made and the document
  loaded last. What a run does to the outside is a list of events: the announcement
  of a category, a call of \<open>goto_with_retries\<close>, a call of \<open>page.goto\<close>, a back-off
  sleep of so many seconds, and the fixed delay between categories.
\<close>

type_synonym web = "nat \<Rightarrow> ustr \<Rightarrow> nat + node"

record browser =
  calls :: nat
  document :: node

datatype event = Scraping ustr | Invoke ustr | Goto ustr | Sleep nat | Delay

definition MAX_RETRIES :: nat where
  "MAX_RETRIES = 4"

definition RETRY_BACKOFF_BASE :: nat where
  "RETRY_BACKOFF_BASE = 2"

text \<open>
  \<^verbatim>\<open>
  def goto_with_retries(page, url):
      for attempt in range(MAX_RETRIES):
          try:
              page.goto(url, wait_until="domcontentloaded", timeout=30000)
              page.wait_for_timeout(3000)
              return
          except Exception as e:
              if attempt < MAX_RETRIES - 1:
                  wait = RETRY_BACKOFF_BASE ** (attempt + 1)
                  time.sleep(wait)
              else:
                  raise
  \<close>
  The loop over the remaining values of \<open>attempt\<close>; it ends without an exception when
  the range is exhausted.
\<close>

fun goto_attempts ::
  "web \<Rightarrow> browser \<Rightarrow> ustr \<Rightarrow> nat list \<Rightarrow> event list \<times> browser \<times> (error + unit)" where
  "goto_attempts W b target [] = ([], b, Inr ())"
| "goto_attempts W b target (attempt # rest) =
     (case W (calls b) target of
        Inr doc \<Rightarrow> ([Goto target], \<lparr> calls = Suc (calls b), document = doc \<rparr>, Inr ())
      | Inl e \<Rightarrow>
          if attempt < MAX_RETRIES - 1
          then (case goto_attempts W (b \<lparr> calls := Suc (calls b) \<rparr>) target rest of
                  (evs, b', r) \<Rightarrow>
                    (Goto target # Sleep (RETRY_BACKOFF_BASE ^ (attempt + 1)) # evs, b', r))
          else ([Goto target], b \<lparr> calls := Suc (calls b) \<rparr>, Inl (NavigationError e)))"

definition goto_with_retries ::
  "web \<Rightarrow> browser \<Rightarrow> ustr \<Rightarrow> event list \<times> browser \<times> (error + unit)" where
  "goto_with_retries W b target =
     (case goto_attempts W b target [0..<MAX_RETRIES] of
        (evs, b', r) \<Rightarrow> (Invoke target # evs, b', r))"

section \<open>Card resolution and the listing of a product link\<close>

text \<open>
  \<^verbatim>\<open>
  card = None
  parent = a.parent
  for _ in range(15):
      if parent is None or parent.name == "body":
          break
      proddetail_links = parent.find_all("a", href=proddetail_re)
      if len(proddetail_links) == 1 and proddetail_links[0] is a:
          card = parent
      parent = parent.parent
  \<close>
\<close>

fun single_link_card :: "node \<Rightarrow> path \<Rightarrow> nat \<Rightarrow> path option \<Rightarrow> path option \<Rightarrow> path option" where
  "single_link_card soup a 0 parent card' = card'"
| "single_link_card soup a (Suc n) parent card' =
     (case parent of
        None \<Rightarrow> card'
      | Some pp \<Rightarrow>
          if tag_at soup pp = u ''body'' then card'
          else (let proddetail_links = find_all_a soup pp proddetail_re in
                single_link_card soup a n (parent_of pp)
                  (if length proddetail_links = 1 \<and> proddetail_links ! 0 = a then Some pp
                   else card')))"

text \<open>
  \<^verbatim>\<open>
  if card is None:
      parent = a.parent
      for _ in range(15):
          if parent is None or parent.name == "body":
              break
          block_text = parent.get_text(separator="\n", strip=True)
          if "<U+20B9>" in block_text or "Rs" in block_text:
              card = parent
              break
          parent = parent.parent
  \<close>
\<close>

fun priced_card :: "node \<Rightarrow> nat \<Rightarrow> path option \<Rightarrow> path option" where
  "priced_card soup 0 parent = None"
| "priced_card soup (Suc n) parent =
     (case parent of
        None \<Rightarrow> None
      | Some pp \<Rightarrow>
          if tag_at soup pp = u ''body'' then None
          else (let block_text = get_text_at soup pp [10] in
                if contains block_text [rupee] \<or> contains block_text (u ''Rs'') then Some pp
                else priced_card soup n (parent_of pp)))"

definition resolve_card :: "node \<Rightarrow> path \<Rightarrow> path option" where
  "resolve_card soup a =
     (case single_link_card soup a 15 (parent_of a) None of
        Some card' \<Rightarrow> Some card'
      | None \<Rightarrow> priced_card soup 15 (parent_of a))"

text \<open>
  \<^verbatim>\<open>
  for supplier_link in card.find_all("a", href=True):
      supplier_href = normalize_indiamart_url(supplier_link.get("href", ""), page_url=current_url)
      if not supplier_href or supplier_href == href:
          continue
      if "/proddetail/" in supplier_href:
          continue
      if not looks_like_supplier_url(supplier_href):
          continue
      supplier_text = (supplier_link.get_text(strip=True) or "").strip()
      if not supplier_text or supplier_text == title:
          continue
      supplier = supplier_text[:200]
      break
  \<close>
  The value of \<open>supplier\<close> after the loop, which starts from the empty string.
\<close>

fun find_supplier ::
  "runtime \<Rightarrow> node \<Rightarrow> ustr \<Rightarrow> ustr \<Rightarrow> ustr \<Rightarrow> path list \<Rightarrow> error + ustr" where
  "find_supplier R soup current_url href title [] = Inr []"
| "find_supplier R soup current_url href title (supplier_link # links) =
     (case normalize_indiamart_url R (get_href soup supplier_link) (Some current_url) of
        Inl e \<Rightarrow> Inl e
      | Inr supplier_href \<Rightarrow>
          if supplier_href = [] \<or> supplier_href = href
          then find_supplier R soup current_url href title links
          else if contains supplier_href (u ''/proddetail/'')
          then find_supplier R soup current_url href title links
          else if \<not> looks_like_supplier_url R supplier_href
          then find_supplier R soup current_url href title links
          else (let supplier_text = strip (get_text_at soup supplier_link []) in
                if supplier_text = [] \<or> supplier_text = title
                then find_supplier R soup current_url href title links
                else Inr (take 200 supplier_text)))"

text \<open>
  The body of the loop over the product links of a page, up to the row it appends:
  \<open>None\<close> when the link is skipped for its short title. The key \<open>scraped_at\<close> is set
  later, by \<open>main\<close>.
\<close>

definition listing_of_link ::
  "runtime \<Rightarrow> node \<Rightarrow> ustr \<Rightarrow> ustr \<Rightarrow> path \<Rightarrow> error + listing option" where
  "listing_of_link R soup current_url category_name a =
     (case normalize_indiamart_url R (get_href soup a) (Some current_url) of
        Inl e \<Rightarrow> Inl e
      | Inr href \<Rightarrow>
          (let title = strip (get_text_at soup a []) in
           if title = [] \<or> length title < 3 then Inr None
           else (case resolve_card soup a of
                   None \<Rightarrow>
                     Inr (Some \<lparr> row_title = take 500 title, row_price = [],
                       row_supplier = [], row_location = [], row_category = category_name,
                       row_url = href, row_scraped_at = [] \<rparr>)
                 | Some card' \<Rightarrow>
                     (let block_text = get_text_at soup card' [10];
                          price = extract_price R block_text;
                          location = extract_location block_text
                      in case find_supplier R soup current_url href title
                                (find_all_a soup card' href_present) of
                           Inl e \<Rightarrow> Inl e
                         | Inr supplier \<Rightarrow>
                             Inr (Some \<lparr> row_title = take 500 title, row_price = price,
                               row_supplier = supplier,
                               row_location = (if location \<noteq> [] then take 300 location else []),
                               row_category = category_name, row_url = href,
                               row_scraped_at = [] \<rparr>)))))"

section \<open>Scraping a category\<close>

text \<open>
  \<open>max_listings is not None and len(rows) >= max_listings\<close>.
\<close>

definition cap_reached :: "int option \<Rightarrow> listing list \<Rightarrow> bool" where
  "cap_reached max_listings rows =
     (case max_listings of None \<Rightarrow> False | Some c \<Rightarrow> c \<le> int (length rows))"

text \<open>
  The loop over the product links of one page. The flag of the result tells whether
  the function returned from inside the loop, the cap being reached.
\<close>

fun scrape_links ::
  "runtime \<Rightarrow> node \<Rightarrow> ustr \<Rightarrow> ustr \<Rightarrow> int option \<Rightarrow> listing list \<Rightarrow> path list
     \<Rightarrow> error + listing list \<times> bool" where
  "scrape_links R soup current_url category_name max_listings rows [] = Inr (rows, False)"
| "scrape_links R soup current_url category_name max_listings rows (a # as) =
     (case listing_of_link R soup current_url category_name a of
        Inl e \<Rightarrow> Inl e
      | Inr None \<Rightarrow> scrape_links R soup current_url category_name max_listings rows as
      | Inr (Some row) \<Rightarrow>
          if cap_reached max_listings (rows @ [row]) then Inr (rows @ [row], True)
          else scrape_links R soup current_url category_name max_listings (rows @ [row]) as)"

text \<open>
  \<^verbatim>\<open>
  for _page_idx in range(max_pages):
      if not current_url or current_url in seen_pages:
          break
      seen_pages.add(current_url)
      goto_with_retries(page, current_url)
      soup = BeautifulSoup(page.content(), "html.parser")
      for a in soup.find_all("a", href=proddetail_re):
          ...
      current_url = find_next_page_url(soup, current_url)
  return rows
  \<close>
  The loop with the number of iterations left; \<open>current_url\<close> is \<open>None\<close> once
  \<open>find_next_page_url\<close> has returned \<open>None\<close>.
\<close>

fun scrape_pages ::
  "web \<Rightarrow> runtime \<Rightarrow> ustr \<Rightarrow> int option \<Rightarrow> nat \<Rightarrow> browser \<Rightarrow> listing list \<Rightarrow> ustr set
     \<Rightarrow> ustr option \<Rightarrow> event list \<times> browser \<times> (error + listing list)" where
  "scrape_pages W R category_name max_listings 0 b rows seen_pages cur = ([], b, Inr rows)"
| "scrape_pages W R category_name max_listings (Suc n) b rows seen_pages cur =
     (case cur of
        None \<Rightarrow> ([], b, Inr rows)
      | Some current_url \<Rightarrow>
          if current_url = [] \<or> current_url \<in> seen_pages then ([], b, Inr rows)
          else (case goto_with_retries W b current_url of
                  (evs, b', Inl e) \<Rightarrow> (evs, b', Inl e)
                | (evs, b', Inr _) \<Rightarrow>
                    (case scrape_links R (document b') current_url category_name max_listings
                            rows (find_all_a (document b') [] proddetail_re) of
                       Inl e \<Rightarrow> (evs, b', Inl e)
                     | Inr (rows', True) \<Rightarrow> (evs, b', Inr rows')
                     | Inr (rows', False) \<Rightarrow>
                         (case find_next_page_url R (document b') current_url of
                            Inl e \<Rightarrow> (evs, b', Inl e)
                          | Inr nxt \<Rightarrow>
                              (case scrape_pages W R category_name max_listings n b' rows'
                                      (insert current_url seen_pages) nxt of
                                 (evs', b'', r) \<Rightarrow> (evs @ evs', b'', r))))))"

definition scrape_category ::
  "web \<Rightarrow> runtime \<Rightarrow> browser \<Rightarrow> ustr \<Rightarrow> ustr \<Rightarrow> int option \<Rightarrow> int
     \<Rightarrow> event list \<times> browser \<times> (error + listing list)" where
  "scrape_category W R b category_name start max_listings max_pages =
     scrape_pages W R category_name max_listings (nat max_pages) b [] {} (Some start)"

section \<open>The main loop\<close>

definition CATEGORY_URLS :: "(ustr \<times> ustr) list" where
  "CATEGORY_URLS =
     [(u ''Industrial Machinery'', u ''https://dir.indiamart.com/impcat/industrial-machinery.html''),
      (u ''Electronics'', u ''https://dir.indiamart.com/impcat/electronic-gadgets.html'')]"

text \<open>
  \<^verbatim>\<open>
  for category_name, url in CATEGORY_URLS:
      if remaining is not None and remaining <= 0:
          break
      print(f"Scraping: {category_name} ...")
      try:
          cap = remaining if remaining is not None else None
          rows = scrape_category(page, category_name, url, max_listings=cap, max_pages=args.max_pages)
          for r in rows:
              r["scraped_at"] = scraped_at
              all_rows.append(r)
          if remaining is not None:
              remaining -= len(rows)
      except Exception as e:
          sys.exit(1)
      time.sleep(DELAY_SECONDS)
  \<close>
  An exception ends the run with its error.
\<close>

definition budget_spent :: "int option \<Rightarrow> bool" where
  "budget_spent remaining = (case remaining of None \<Rightarrow> False | Some r \<Rightarrow> r \<le> 0)"

fun main_loop ::
  "web \<Rightarrow> runtime \<Rightarrow> ustr \<Rightarrow> int \<Rightarrow> browser \<Rightarrow> int option \<Rightarrow> listing list
     \<Rightarrow> (ustr \<times> ustr) list \<Rightarrow> event list \<times> browser \<times> (error + listing list)" where
  "main_loop W R stamp max_pages b remaining all_rows [] = ([], b, Inr all_rows)"
| "main_loop W R stamp max_pages b remaining all_rows ((category_name, start) # rest) =
     (if budget_spent remaining then ([], b, Inr all_rows)
      else (case scrape_category W R b category_name start remaining max_pages of
              (evs, b', Inl e) \<Rightarrow> (Scraping category_name # evs, b', Inl e)
            | (evs, b', Inr rows) \<Rightarrow>
                (case main_loop W R stamp max_pages b'
                        (map_option (\<lambda>r. r - int (length rows)) remaining)
                        (all_rows @ map (\<lambda>r. r \<lparr> row_scraped_at := stamp \<rparr>) rows) rest of
                   (evs', b'', r) \<Rightarrow> (Scraping category_name # evs @ Delay # evs', b'', r))))"

text \<open>
  \<open>main\<close> up to the rows it hands to the CSV writer: the loop over the categories, then
  the deduplication pass.
\<close>

definition main_rows ::
  "web \<Rightarrow> runtime \<Rightarrow> ustr \<Rightarrow> int option \<Rightarrow> int \<Rightarrow> browser
     \<Rightarrow> event list \<times> browser \<times> (error + listing list)" where
  "main_rows W R stamp max_listings max_pages b =
     (case main_loop W R stamp max_pages b max_listings [] CATEGORY_URLS of
        (evs, b', Inl e) \<Rightarrow> (evs, b', Inl e)
      | (evs, b', Inr all_rows) \<Rightarrow> (evs, b', Inr (deduplicate all_rows)))"

text \<open>The URLs on which \<open>goto_with_retries\<close> was called, in order.\<close>

fun invoked :: "event list \<Rightarrow> ustr list" where
  "invoked [] = []"
| "invoked (Invoke t # evs) = t # invoked evs"
| "invoked (e # evs) = invoked evs"

section \<open>Evaluation rules\<close>

lemmas str_eval = u_def is_space_def is_ascii_def is_ascii_upper_def is_ascii_lower_def
  is_ascii_digit_def ascii_lower_def is_digit_def is_word_def strip_def startswith_def
  endswith_def split1_def rupee_def lstrip_chars_def strip_chars_def

lemmas price_eval = extract_price_def price_pattern_def digit_or_comma_def match_at_def

section \<open>Properties of the deduplication pass\<close>

lemma dedup_loop_filter:
  "dedup_loop seen unique rs = unique @ dedup_loop seen [] rs"
proof (induction rs arbitrary: seen unique)
  case Nil
  show ?case by simp
next
  case (Cons r rs)
  show ?case
  proof (cases "row_url r \<in> seen")
    case True
    with Cons.IH [of seen unique] show ?thesis by simp
  next
    case False
    with Cons.IH [of "insert (row_url r) seen" "unique @ [r]"]
      Cons.IH [of "insert (row_url r) seen" "[r]"]
    show ?thesis by simp
  qed
qed

lemma dedup_loop_Cons:
  "dedup_loop seen [] (r # rs) =
     (if row_url r \<in> seen then dedup_loop seen [] rs
      else r # dedup_loop (insert (row_url r) seen) [] rs)"
  using dedup_loop_filter [of "insert (row_url r) seen" "[r]" rs] by simp

lemma dedup_loop_urls:
  "row_url ` set (dedup_loop seen [] rs) = row_url ` set rs - seen"
  by (induction rs arbitrary: seen) (auto simp: dedup_loop_Cons simp del: dedup_loop.simps(2))

lemma dedup_loop_distinct:
  "distinct (map row_url (dedup_loop seen [] rs))"
proof (induction rs arbitrary: seen)
  case Nil
  show ?case by simp
next
  case (Cons r rs)
  have "row_url r \<notin> row_url ` set (dedup_loop (insert (row_url r) seen) [] rs)"
    by (simp add: dedup_loop_urls)
  with Cons.IH show ?case by (simp add: dedup_loop_Cons del: dedup_loop.simps(2))
qed

lemma dedup_loop_first:
  "first_with_url k (dedup_loop seen [] rs) =
     (if k \<in> seen then None else first_with_url k rs)"
proof (induction rs arbitrary: seen)
  case Nil
  show ?case by simp
next
  case (Cons r rs)
  show ?case
    using Cons.IH [of seen] Cons.IH [of "insert (row_url r) seen"]
    by (simp add: dedup_loop_Cons del: dedup_loop.simps(2))
qed

lemma dedup_loop_fixed:
  "distinct (map row_url rs) \<Longrightarrow> row_url ` set rs \<inter> seen = {} \<Longrightarrow> dedup_loop seen [] rs = rs"
proof (induction rs arbitrary: seen)
  case Nil
  show ?case by simp
next
  case (Cons r rs)
  from Cons.prems have "row_url r \<notin> seen" by auto
  moreover from Cons.prems have "dedup_loop (insert (row_url r) seen) [] rs = rs"
    by (intro Cons.IH) auto
  ultimately show ?case by (simp add: dedup_loop_Cons del: dedup_loop.simps(2))
qed

lemma dedup_loop_subseq:
  "subseq (dedup_loop seen [] rs) rs"
  by (induction rs arbitrary: seen)
    (auto simp add: dedup_loop_Cons simp del: dedup_loop.simps(2) intro: list_emb_Cons)

text \<open>
  Claim C4. The deduplication pass of \<open>main\<close> returns records of its input in input
  order, with pairwise distinct urls; every url of the input is kept, and the record
  kept for it is the first one of the input that carries it; and the pass applied to
  its own output returns that output.
\<close>

theorem deduplicate_first_seen_idempotent:
  "distinct (map row_url (deduplicate rows))
   \<and> subseq (deduplicate rows) rows
   \<and> row_url ` set (deduplicate rows) = row_url ` set rows
   \<and> first_with_url k (deduplicate rows) = first_with_url k rows
   \<and> deduplicate (deduplicate rows) = deduplicate rows"
proof -
  have d: "distinct (map row_url (deduplicate rows))"
    unfolding deduplicate_def by (rule dedup_loop_distinct)
  have q: "subseq (deduplicate rows) rows"
    unfolding deduplicate_def by (rule dedup_loop_subseq)
  have s: "row_url ` set (deduplicate rows) = row_url ` set rows"
    unfolding deduplicate_def by (simp add: dedup_loop_urls)
  have f: "first_with_url k (deduplicate rows) = first_with_url k rows"
    unfolding deduplicate_def by (simp add: dedup_loop_first)
  have "dedup_loop {} [] (deduplicate rows) = deduplicate rows"
    using d by (intro dedup_loop_fixed) simp_all
  then have i: "deduplicate (deduplicate rows) = deduplicate rows"
    by (simp add: deduplicate_def)
  from d q s f i show ?thesis by simp
qed

section \<open>The field extractors on the example and on text without a match\<close>

lemma not_contains_find_sub:
  "\<not> contains s p \<Longrightarrow> find_sub p s = None"
  by (induction s) auto

text \<open>
  Claim C10. Some text with neither the rupee sign nor the substring \<open>Rs\<close> has a
  non-empty price: the pattern is matched without regard to case, so the \<open>rs\<close> that
  ends \<open>offers\<close>, followed by digits, is reported as the price \<open>rs 500\<close>.
\<close>

theorem extract_price_lowercase_rs:
  "rupee \<notin> set (u ''offers 500'') \<and> \<not> contains (u ''offers 500'') (u ''Rs'')
   \<and> extract_price R (u ''offers 500'') = u ''rs 500''
   \<and> extract_price R (u ''offers 500'') \<noteq> []"
  by (simp add: price_eval str_eval)

text \<open>
  Claim C7. On the example block, \<open>extract_price\<close> returns the rupee sign followed by
  \<open> 1,25,000/Unit\<close> and \<open>extract_location\<close> returns \<open>ABC Traders\<close>; a text in which the
  price pattern has no match has the empty price, and a text without
  \<open>Contact Supplier\<close> has the empty location.
\<close>

theorem extract_example_and_no_match:
  "extract_price R example_block = rupee # u '' 1,25,000/Unit''
   \<and> extract_location example_block = u ''ABC Traders''
   \<and> (re_search (price_pattern R) text = None \<longrightarrow> extract_price R text = [])
   \<and> (\<not> contains text' contact_supplier \<longrightarrow> extract_location text' = [])"
proof (intro conjI)
  show "extract_price R example_block = rupee # u '' 1,25,000/Unit''"
    by (simp add: example_block_def price_eval str_eval)
  show "extract_location example_block = u ''ABC Traders''"
    by (simp add: extract_location_def example_block_def contact_supplier_def str_eval)
  show "re_search (price_pattern R) text = None \<longrightarrow> extract_price R text = []"
    by (simp add: extract_price_def)
  show "\<not> contains text' contact_supplier \<longrightarrow> extract_location text' = []"
    by (simp add: extract_location_def)
qed

theorem extract_example_and_no_match_witness:
  "re_search (price_pattern ascii_runtime) (u ''Mumbai'') = None
   \<and> extract_price ascii_runtime (u ''Mumbai'') = []
   \<and> \<not> contains (u ''Mumbai'') contact_supplier
   \<and> extract_location (u ''Mumbai'') = []"
  (is "?A \<and> ?B \<and> ?C \<and> ?D")
proof -
  have a: ?A by (simp add: price_eval str_eval)
  have c: ?C by (simp add: contact_supplier_def str_eval)
  note t = extract_example_and_no_match [of ascii_runtime "u ''Mumbai''"
      "u ''Mumbai''"]
  from t have "?A \<longrightarrow> ?B" by (elim conjE)
  from this a have b: ?B by (rule mp)
  from t have "?C \<longrightarrow> ?D" by (elim conjE)
  from this c have d: ?D by (rule mp)
  from a b c d show ?thesis by (intro conjI)
qed

section \<open>URL normalisation\<close>

lemma strip_keeps_prefix:
  assumes "startswith s p" "p \<noteq> []" "\<not> is_space (hd p)" "\<not> is_space (last p)"
  shows "\<exists>t. strip s = p @ t"
proof -
  from assms(1) obtain t where s: "s = p @ t"
    unfolding startswith_def by (metis append_take_drop_id)
  from assms(2,3) have d: "dropWhile is_space (p @ t) = p @ t"
    by (cases p) auto
  have "last p \<in> set (rev p)" using assms(2) by simp
  then have "dropWhile is_space (rev t @ rev p) =
      (if \<forall>x\<in>set (rev t). is_space x then dropWhile is_space (rev p)
       else dropWhile is_space (rev t) @ rev p)"
    by (simp add: dropWhile_append)
  moreover have "dropWhile is_space (rev p) = rev p"
    using assms(2,4) by (cases "rev p") (auto simp: last_rev hd_rev dest: arg_cong [where f = hd])
  ultimately have "\<exists>t'. rev (dropWhile is_space (rev (p @ t))) = p @ t'"
    by auto
  with s d show ?thesis by (simp add: strip_def)
qed

lemma u_eval: "u (c # cs) = of_char c # u cs" "u [] = []"
  by (simp_all add: u_def)

lemma parse_dir_root:
  "urlparse R dir_root [] = Some \<lparr> pr_scheme = u ''https'', pr_netloc = u ''dir.indiamart.com'',
     pr_path = u ''/'', pr_params = [], pr_query = [], pr_fragment = [] \<rparr>"
  by code_simp

lemma parse_www_root:
  "urlparse R www_root [] = Some \<lparr> pr_scheme = u ''https'', pr_netloc = u ''www.indiamart.com'',
     pr_path = u ''/'', pr_params = [], pr_query = [], pr_fragment = [] \<rparr>"
  by code_simp

lemma split_scheme_relative:
  assumes "p \<noteq> []" "58 \<notin> set p"
    "\<not> (is_ascii_lower (hd p) \<or> is_ascii_upper (hd p)) \<or> \<not> list_all scheme_char p"
  shows "split_scheme dflt (p @ t) = (dflt, p @ t)"
proof -
  have pre: "takeWhile (\<lambda>c. c \<noteq> 58) (p @ t) = p @ takeWhile (\<lambda>c. c \<noteq> 58) t"
    using assms(2) by (intro takeWhile_append2) auto
  have "hd (p @ t) = hd p" using assms(1) by simp
  moreover have "list_all scheme_char (p @ takeWhile (\<lambda>c. c \<noteq> 58) t) \<Longrightarrow> list_all scheme_char p"
    by simp
  ultimately show ?thesis
    using assms(3) unfolding split_scheme_def pre Let_def by auto
qed

lemma split_netloc_relative:
  assumes "2 \<le> length p" "take 2 p \<noteq> u ''//''"
  shows "split_netloc (p @ t) = ([], p @ t)"
  using assms by (simp add: split_netloc_def)

lemma clean_relative:
  assumes "p \<noteq> []" "\<forall>c\<in>set p. 32 < c"
  shows "filter (\<lambda>c. \<not> unsafe_byte c) (lstrip_chars c0_or_space (p @ t))
         = p @ filter (\<lambda>c. \<not> unsafe_byte c) t"
proof -
  from assms have "dropWhile c0_or_space (p @ t) = p @ t"
    by (cases p) (auto simp: c0_or_space_def)
  moreover from assms(2) have "filter (\<lambda>c. \<not> unsafe_byte c) p = p"
    by (auto simp: unsafe_byte_def filter_id_conv)
  ultimately show ?thesis by (simp add: lstrip_chars_def)
qed

lemma https_default:
  "filter (\<lambda>c. \<not> unsafe_byte c) (strip_chars c0_or_space (u ''https'')) = u ''https''"
  by (simp add: u_def strip_chars_def c0_or_space_def unsafe_byte_def)

lemma urlsplit_relative:
  assumes "2 \<le> length p" "\<forall>c\<in>set p. 32 < c \<and> c \<noteq> 58"
    "\<not> (is_ascii_lower (hd p) \<or> is_ascii_upper (hd p)) \<or> \<not> list_all scheme_char p"
    "take 2 p \<noteq> u ''//''"
  shows "\<exists>sr. urlsplit R (p @ t) (u ''https'') = Some sr \<and> sr_scheme sr = u ''https''
           \<and> sr_netloc sr = []"
proof -
  from assms(1) have ne: "p \<noteq> []" by auto
  from assms(2) have a: "\<forall>c\<in>set p. 32 < c" and b: "58 \<notin> set p" by auto
  show ?thesis
    by (simp add: urlsplit_def Let_def clean_relative [OF ne a] https_default
      split_scheme_relative [OF ne b assms(3)] split_netloc_relative [OF assms(1,4)]
      netloc_error_def split: prod.splits)
qed

lemma urlparse_relative:
  assumes "2 \<le> length p" "\<forall>c\<in>set p. 32 < c \<and> c \<noteq> 58"
    "\<not> (is_ascii_lower (hd p) \<or> is_ascii_upper (hd p)) \<or> \<not> list_all scheme_char p"
    "take 2 p \<noteq> u ''//''"
  shows "\<exists>pr. urlparse R (p @ t) (u ''https'') = Some pr \<and> pr_scheme pr = u ''https''
           \<and> pr_netloc pr = []"
proof -
  from urlsplit_relative [OF assms, of R t] obtain sr where
    "urlsplit R (p @ t) (u ''https'') = Some sr" "sr_scheme sr = u ''https''" "sr_netloc sr = []"
    by blast
  then show ?thesis
    by (simp add: urlparse_def Let_def split: prod.splits)
qed

lemma https_lists:
  "uses_relative R (u ''https'')" "uses_netloc R (u ''https'')"
  by (simp_all add: uses_relative_def uses_netloc_def u_def)

lemma join_path_nonempty: "join_path bpath path \<noteq> []"
  by (simp add: join_path_def Let_def u_def)

lemma urlunparse_origin:
  assumes "pr_scheme pr = u ''https''" "pr_netloc pr \<noteq> []" "pr_path pr \<noteq> []"
  shows "\<exists>rest. urlunparse R pr = u ''https://'' @ pr_netloc pr @ u ''/'' @ rest"
proof -
  define q where "q = (if pr_params pr \<noteq> [] then pr_path pr @ u '';'' @ pr_params pr
                       else pr_path pr)"
  have q: "q \<noteq> []" using assms(3) by (simp add: q_def)
  define q' where "q' = (if take 1 q \<noteq> u ''/'' then u ''/'' @ q else q)"
  have "\<exists>r. q' = u ''/'' @ r"
  proof (cases "take 1 q = u ''/''")
    case True
    with q have "q = u ''/'' @ tl q" by (cases q) (auto simp: u_def)
    with True show ?thesis unfolding q'_def by auto
  next
    case False
    then show ?thesis unfolding q'_def by auto
  qed
  then obtain r where r: "q' = u ''/'' @ r" by blast
  have "urlunparse R pr =
      (let url2 = u ''https'' @ u '':'' @ u ''//'' @ pr_netloc pr @ q';
           url3 = (if pr_query pr \<noteq> [] then url2 @ u ''?'' @ pr_query pr else url2)
       in if pr_fragment pr \<noteq> [] then url3 @ u ''#'' @ pr_fragment pr else url3)"
    using assms q by (simp add: urlunparse_def urlunsplit_def Let_def q_def q'_def u_def)
  then show ?thesis
    unfolding r by (auto simp: Let_def u_def)
qed

lemma urljoin_relative:
  assumes "base \<noteq> []" "url \<noteq> []"
    "urlparse R base [] = Some b" "pr_scheme b = u ''https''" "pr_netloc b \<noteq> []"
    "pr_path b \<noteq> []"
    "urlparse R url (u ''https'') = Some p" "pr_scheme p = u ''https''" "pr_netloc p = []"
  shows "\<exists>rest. urljoin R base url = Some (u ''https://'' @ pr_netloc b @ u ''/'' @ rest)"
proof (cases "pr_path p = [] \<and> pr_params p = []")
  case True
  let ?r = "p \<lparr> pr_netloc := pr_netloc b, pr_path := pr_path b, pr_params := pr_params b,
     pr_query := (if pr_query p = [] then pr_query b else pr_query p) \<rparr>"
  have "urljoin R base url = Some (urlunparse R ?r)"
    using assms True by (simp add: urljoin_def Let_def https_lists)
  moreover have "\<exists>rest. urlunparse R ?r = u ''https://'' @ pr_netloc ?r @ u ''/'' @ rest"
    by (rule urlunparse_origin) (use assms in simp_all)
  ultimately show ?thesis by simp
next
  case False
  let ?r = "p \<lparr> pr_netloc := pr_netloc b, pr_path := join_path (pr_path b) (pr_path p) \<rparr>"
  have "urljoin R base url = Some (urlunparse R ?r)"
    using assms False by (cases "pr_path p = []") (simp_all add: urljoin_def Let_def https_lists)
  moreover have "\<exists>rest. urlunparse R ?r = u ''https://'' @ pr_netloc ?r @ u ''/'' @ rest"
    by (rule urlunparse_origin) (use assms join_path_nonempty in simp_all)
  ultimately show ?thesis by simp
qed

lemma normalize_any_relative:
  assumes "4 \<le> length P" "\<forall>c\<in>set P. 32 < c \<and> c \<noteq> 58"
    "\<not> (is_ascii_lower (hd P) \<or> is_ascii_upper (hd P)) \<or> \<not> list_all scheme_char P"
    "take 2 P \<noteq> u ''//''" "take 4 P \<noteq> u ''http''"
    "\<not> is_space (hd P)" "\<not> is_space (last P)"
    "root \<noteq> []" "urlparse R root [] = Some b" "pr_scheme b = u ''https''"
    "pr_netloc b \<noteq> []" "pr_path b \<noteq> []"
  shows "\<exists>rest. normalize_any_url R (P @ t) root
           = Inr (u ''https://'' @ pr_netloc b @ u ''/'' @ rest)"
proof -
  from assms(1) have ne: "P \<noteq> []" by auto
  have "startswith (P @ t) P" by (simp add: startswith_def)
  from strip_keeps_prefix [OF this ne assms(6,7)]
  obtain t' where s: "strip (P @ t) = P @ t'" by blast
  have l2: "length (u ''//'') = 2" and l4: "length (u ''http'') = 4"
    by (simp_all add: u_def)
  have n2: "\<not> startswith (P @ t') (u ''//'')"
    unfolding startswith_def l2 using assms(1,4) by simp
  have n4: "\<not> startswith (P @ t') (u ''http'')"
    unfolding startswith_def l4 using assms(1,5) by simp
  have 2: "2 \<le> length P" using assms(1) by simp
  from urlparse_relative [OF 2 assms(2,3,4), of R t']
  obtain p where p: "urlparse R (P @ t') (u ''https'') = Some p" "pr_scheme p = u ''https''"
    "pr_netloc p = []" by blast
  have "P @ t' \<noteq> []" using ne by simp
  from urljoin_relative [OF assms(8) this assms(9,10,11,12) p]
  obtain rest where "urljoin R root (P @ t') = Some (u ''https://'' @ pr_netloc b @ u ''/'' @ rest)"
    by blast
  with ne s n2 n4 show ?thesis
    by (simp add: normalize_any_url_def urljoin_or_raise_def Let_def)
qed

lemma dir_root_origin:
  assumes "4 \<le> length P" "\<forall>c\<in>set P. 32 < c \<and> c \<noteq> 58"
    "\<not> (is_ascii_lower (hd P) \<or> is_ascii_upper (hd P)) \<or> \<not> list_all scheme_char P"
    "take 2 P \<noteq> u ''//''" "take 4 P \<noteq> u ''http''"
    "\<not> is_space (hd P)" "\<not> is_space (last P)"
  shows "\<exists>rest. normalize_any_url R (P @ t) dir_root = Inr (u ''https://dir.indiamart.com/'' @ rest)"
proof -
  have "dir_root \<noteq> []" by (simp add: dir_root_def u_def)
  from normalize_any_relative [OF assms this parse_dir_root, where t = t]
  show ?thesis by (simp add: u_def)
qed

lemma www_root_origin:
  assumes "4 \<le> length P" "\<forall>c\<in>set P. 32 < c \<and> c \<noteq> 58"
    "\<not> (is_ascii_lower (hd P) \<or> is_ascii_upper (hd P)) \<or> \<not> list_all scheme_char P"
    "take 2 P \<noteq> u ''//''" "take 4 P \<noteq> u ''http''"
    "\<not> is_space (hd P)" "\<not> is_space (last P)"
  shows "\<exists>rest. normalize_any_url R (P @ t) www_root = Inr (u ''https://www.indiamart.com/'' @ rest)"
proof -
  have "www_root \<noteq> []" by (simp add: www_root_def u_def)
  from normalize_any_relative [OF assms this parse_www_root, where t = t]
  show ?thesis by (simp add: u_def)
qed

lemmas prefix_eval = u_def is_space_def is_ascii_lower_def is_ascii_upper_def is_ascii_digit_def
  scheme_char_def

lemma normalize_slash_impcat:
  assumes "startswith href (u ''/impcat/'')"
  shows "\<exists>rest. normalize_indiamart_url R href page_url
           = Inr (u ''https://dir.indiamart.com/'' @ rest)"
proof -
  from strip_keeps_prefix [OF assms] obtain t where t: "strip href = u ''/impcat/'' @ t"
    by (auto simp: prefix_eval)
  from assms have ne: "href \<noteq> []" by (auto simp: startswith_def u_def)
  have "normalize_indiamart_url R href page_url = normalize_any_url R (u ''/impcat/'' @ t) dir_root"
    using ne by (simp add: normalize_indiamart_url_def Let_def t startswith_def u_def)
  moreover have "\<exists>rest. normalize_any_url R (u ''/impcat/'' @ t) dir_root
      = Inr (u ''https://dir.indiamart.com/'' @ rest)"
    by (rule dir_root_origin) (simp_all add: prefix_eval)
  ultimately show ?thesis by simp
qed

lemma normalize_impcat:
  assumes "startswith href (u ''impcat/'')"
  shows "\<exists>rest. normalize_indiamart_url R href page_url
           = Inr (u ''https://dir.indiamart.com/'' @ rest)"
proof -
  from strip_keeps_prefix [OF assms] obtain t where t: "strip href = u ''impcat/'' @ t"
    by (auto simp: prefix_eval)
  from assms have ne: "href \<noteq> []" by (auto simp: startswith_def u_def)
  have "normalize_indiamart_url R href page_url = normalize_any_url R (u ''impcat/'' @ t) dir_root"
    using ne by (simp add: normalize_indiamart_url_def Let_def t startswith_def u_def)
  moreover have "\<exists>rest. normalize_any_url R (u ''impcat/'' @ t) dir_root
      = Inr (u ''https://dir.indiamart.com/'' @ rest)"
    by (rule dir_root_origin) (simp_all add: prefix_eval)
  ultimately show ?thesis by simp
qed

lemma normalize_slash_proddetail:
  assumes "startswith href (u ''/proddetail/'')"
  shows "\<exists>rest. normalize_indiamart_url R href page_url
           = Inr (u ''https://www.indiamart.com/'' @ rest)"
proof -
  from strip_keeps_prefix [OF assms] obtain t where t: "strip href = u ''/proddetail/'' @ t"
    by (auto simp: prefix_eval)
  from assms have ne: "href \<noteq> []" by (auto simp: startswith_def u_def)
  have "normalize_indiamart_url R href page_url = normalize_any_url R (u ''/proddetail/'' @ t) www_root"
    using ne by (simp add: normalize_indiamart_url_def Let_def t startswith_def u_def)
  moreover have "\<exists>rest. normalize_any_url R (u ''/proddetail/'' @ t) www_root
      = Inr (u ''https://www.indiamart.com/'' @ rest)"
    by (rule www_root_origin) (simp_all add: prefix_eval)
  ultimately show ?thesis by simp
qed

lemma normalize_proddetail:
  assumes "startswith href (u ''proddetail/'')"
  shows "\<exists>rest. normalize_indiamart_url R href page_url
           = Inr (u ''https://www.indiamart.com/'' @ rest)"
proof -
  from strip_keeps_prefix [OF assms] obtain t where t: "strip href = u ''proddetail/'' @ t"
    by (auto simp: prefix_eval)
  from assms have ne: "href \<noteq> []" by (auto simp: startswith_def u_def)
  have "normalize_indiamart_url R href page_url = normalize_any_url R (u ''proddetail/'' @ t) www_root"
    using ne by (simp add: normalize_indiamart_url_def Let_def t startswith_def u_def)
  moreover have "\<exists>rest. normalize_any_url R (u ''proddetail/'' @ t) www_root
      = Inr (u ''https://www.indiamart.com/'' @ rest)"
    by (rule www_root_origin) (simp_all add: prefix_eval)
  ultimately show ?thesis by simp
qed

lemma normalize_slash_company:
  assumes "startswith href (u ''/company/'')"
  shows "\<exists>rest. normalize_indiamart_url R href page_url
           = Inr (u ''https://www.indiamart.com/'' @ rest)"
proof -
  from strip_keeps_prefix [OF assms] obtain t where t: "strip href = u ''/company/'' @ t"
    by (auto simp: prefix_eval)
  from assms have ne: "href \<noteq> []" by (auto simp: startswith_def u_def)
  have "normalize_indiamart_url R href page_url = normalize_any_url R (u ''/company/'' @ t) www_root"
    using ne by (simp add: normalize_indiamart_url_def Let_def t startswith_def u_def)
  moreover have "\<exists>rest. normalize_any_url R (u ''/company/'' @ t) www_root
      = Inr (u ''https://www.indiamart.com/'' @ rest)"
    by (rule www_root_origin) (simp_all add: prefix_eval)
  ultimately show ?thesis by simp
qed

lemma normalize_company:
  assumes "startswith href (u ''company/'')"
  shows "\<exists>rest. normalize_indiamart_url R href page_url
           = Inr (u ''https://www.indiamart.com/'' @ rest)"
proof -
  from strip_keeps_prefix [OF assms] obtain t where t: "strip href = u ''company/'' @ t"
    by (auto simp: prefix_eval)
  from assms have ne: "href \<noteq> []" by (auto simp: startswith_def u_def)
  have "normalize_indiamart_url R href page_url = normalize_any_url R (u ''company/'' @ t) www_root"
    using ne by (simp add: normalize_indiamart_url_def Let_def t startswith_def u_def)
  moreover have "\<exists>rest. normalize_any_url R (u ''company/'' @ t) www_root
      = Inr (u ''https://www.indiamart.com/'' @ rest)"
    by (rule www_root_origin) (simp_all add: prefix_eval)
  ultimately show ?thesis by simp
qed

text \<open>
  Claim C6. An href that begins with \<open>/impcat/\<close> or \<open>impcat/\<close> is normalised to an
  absolute URL on \<open>https://dir.indiamart.com/\<close>, and one that begins with
  \<open>/proddetail/\<close>, \<open>proddetail/\<close>, \<open>/company/\<close> or \<open>company/\<close> to an absolute URL on
  \<open>https://www.indiamart.com/\<close>, whatever the page URL; no error is raised.
\<close>

theorem normalize_indiamart_url_hosts:
  "(startswith href (u ''/impcat/'') \<or> startswith href (u ''impcat/'') \<longrightarrow>
      (\<exists>rest. normalize_indiamart_url R href page_url
         = Inr (u ''https://dir.indiamart.com/'' @ rest)))
   \<and> (startswith href (u ''/proddetail/'') \<or> startswith href (u ''proddetail/'')
        \<or> startswith href (u ''/company/'') \<or> startswith href (u ''company/'') \<longrightarrow>
      (\<exists>rest. normalize_indiamart_url R href page_url
         = Inr (u ''https://www.indiamart.com/'' @ rest)))"
proof (intro conjI impI)
  assume "startswith href (u ''/impcat/'') \<or> startswith href (u ''impcat/'')"
  then show "\<exists>rest. normalize_indiamart_url R href page_url
         = Inr (u ''https://dir.indiamart.com/'' @ rest)"
    by (elim disjE) (rule normalize_slash_impcat, assumption, rule normalize_impcat, assumption)
next
  assume "startswith href (u ''/proddetail/'') \<or> startswith href (u ''proddetail/'')
        \<or> startswith href (u ''/company/'') \<or> startswith href (u ''company/'')"
  then show "\<exists>rest. normalize_indiamart_url R href page_url
         = Inr (u ''https://www.indiamart.com/'' @ rest)"
    by (elim disjE) (rule normalize_slash_proddetail, assumption, rule normalize_proddetail,
      assumption, rule normalize_slash_company, assumption, rule normalize_company, assumption)
qed

theorem normalize_indiamart_url_hosts_witness:
  "startswith (u ''/impcat/industrial-machinery.html'') (u ''/impcat/'')
   \<and> (\<exists>rest. normalize_indiamart_url ascii_runtime (u ''/impcat/industrial-machinery.html'')
          (Some (u ''https://www.indiamart.com/x/'')) = Inr (u ''https://dir.indiamart.com/'' @ rest))
   \<and> startswith (u ''company/acme'') (u ''company/'')
   \<and> (\<exists>rest. normalize_indiamart_url ascii_runtime (u ''company/acme'')
          (Some (u ''https://dir.indiamart.com/impcat/x.html''))
          = Inr (u ''https://www.indiamart.com/'' @ rest))"
  (is "?A \<and> ?B \<and> ?C \<and> ?D")
proof -
  have a: ?A by (simp add: startswith_def u_def)
  have c: ?C by (simp add: startswith_def u_def)
  from normalize_indiamart_url_hosts [of "u ''/impcat/industrial-machinery.html''"
      ascii_runtime "Some (u ''https://www.indiamart.com/x/'')"] a
  have b: ?B by (elim conjE) (erule impE, rule disjI1, assumption, assumption)
  from normalize_indiamart_url_hosts [of "u ''company/acme''"
      ascii_runtime "Some (u ''https://dir.indiamart.com/impcat/x.html'')"] c
  have d: ?D
    by (elim conjE) (erule impE [where P = "_ \<or> _ \<or> _ \<or> _"], intro disjI2, assumption, assumption)
  from a b c d show ?thesis by (intro conjI)
qed

section \<open>Link classification\<close>













section \<open>Pagination\<close>

lemmas dom_eval = find_all_a_def href_present_def proddetail_re_def get_href_def tag_at_def
  all_strings_def get_text_def get_text_at_def attr_matches_def find_rel_next_def
  rel_next_href_def parent_of_def List.map_filter_def

lemma next_by_text_guard:
  "next_by_text R soup current_url as = Inr (Some r) \<Longrightarrow> r \<noteq> [] \<and> r \<noteq> current_url"
  by (induction as) (auto simp: Let_def split: if_splits sum.splits)

lemma find_next_page_url_text_guard:
  "rel_next_href R soup = None \<Longrightarrow> find_next_page_url R soup current_url = Inr (Some r)
     \<Longrightarrow> r \<noteq> [] \<and> r \<noteq> current_url"
  by (auto simp: find_next_page_url_def dest: next_by_text_guard)

text \<open>
  Claim C1, at a document whose only anchor is
  \<open><a rel="next" href="https://dir.indiamart.com/impcat/x.html">Next</a>\<close>, walked from the
  page \<open>https://dir.indiamart.com/impcat/x.html\<close>: the anchor is found by its \<open>rel\<close>
  attribute and its href is returned although it equals the current URL. The guard
  against the current URL is applied to the anchors found by their text only.
\<close>

theorem find_next_page_url_rel_self_loop:
  "find_next_page_url R
     (Elem (u ''[document]'') None None
        [Elem (u ''a'') (Some (u ''https://dir.indiamart.com/impcat/x.html''))
           (Some [u ''next'']) [Text (u ''Next'')]])
     (u ''https://dir.indiamart.com/impcat/x.html'')
   = Inr (Some (u ''https://dir.indiamart.com/impcat/x.html''))"
  by (simp add: find_next_page_url_def normalize_any_url_def dom_eval str_eval lower_def Let_def)

section \<open>Navigation with retries\<close>

lemma attempts_range: "[0..<MAX_RETRIES] = [0, Suc 0, Suc (Suc 0), Suc (Suc (Suc 0))]"
  by (simp add: MAX_RETRIES_def eval_nat_numeral)

lemma less_4_cases: "j < 4 \<Longrightarrow> j = 0 \<or> j = 1 \<or> j = 2 \<or> j = (3::nat)"
  by arith

text \<open>
  Claim C3. With four attempts and back-off base two, when the four calls of
  \<open>page.goto\<close> all fail, \<open>goto_with_retries\<close> sleeps 2, 4 and 8 seconds between them
  and then raises the error of the fourth call; when the call of attempt \<open>j\<close> is the
  first to succeed, it returns without an exception, having slept after each of the
  \<open>j\<close> failures only, and calls \<open>page.goto\<close> no more.
\<close>

theorem goto_with_retries_backoff:
  "((\<forall>k<4. W (calls b + k) target = Inl (e k)) \<longrightarrow>
      goto_with_retries W b target =
        ([Invoke target, Goto target, Sleep 2, Goto target, Sleep 4, Goto target, Sleep 8,
          Goto target],
         b \<lparr> calls := calls b + 4 \<rparr>, Inl (NavigationError (e 3))))
   \<and> (j < 4 \<and> (\<forall>k<j. W (calls b + k) target = Inl (e k))
        \<and> W (calls b + j) target = Inr doc \<longrightarrow>
      goto_with_retries W b target =
        (Invoke target # concat (map (\<lambda>i. [Goto target, Sleep (2 ^ (i + 1))]) [0..<j])
           @ [Goto target],
         \<lparr> calls = calls b + j + 1, document = doc \<rparr>, Inr ()))"
proof (intro conjI impI)
  assume a: "\<forall>k<4. W (calls b + k) target = Inl (e k)"
  have "W (calls b) target = Inl (e 0)" "W (Suc (calls b)) target = Inl (e 1)"
    "W (Suc (Suc (calls b))) target = Inl (e 2)"
    "W (Suc (Suc (Suc (calls b)))) target = Inl (e 3)"
    using a [rule_format, of 0] a [rule_format, of 1] a [rule_format, of 2]
      a [rule_format, of 3] by (simp_all add: eval_nat_numeral)
  then show "goto_with_retries W b target =
        ([Invoke target, Goto target, Sleep 2, Goto target, Sleep 4, Goto target, Sleep 8,
          Goto target],
         b \<lparr> calls := calls b + 4 \<rparr>, Inl (NavigationError (e 3)))"
    by (simp add: goto_with_retries_def attempts_range MAX_RETRIES_def RETRY_BACKOFF_BASE_def
      eval_nat_numeral)
next
  assume s: "j < 4 \<and> (\<forall>k<j. W (calls b + k) target = Inl (e k))
        \<and> W (calls b + j) target = Inr doc"
  then have f: "\<And>k. k < j \<Longrightarrow> W (calls b + k) target = Inl (e k)"
    and d: "W (calls b + j) target = Inr doc" by simp_all
  from s have "j = 0 \<or> j = 1 \<or> j = 2 \<or> j = 3" by (intro less_4_cases) simp
  then show "goto_with_retries W b target =
        (Invoke target # concat (map (\<lambda>i. [Goto target, Sleep (2 ^ (i + 1))]) [0..<j])
           @ [Goto target],
         \<lparr> calls = calls b + j + 1, document = doc \<rparr>, Inr ())"
  proof (elim disjE)
    assume "j = 0"
    with d show ?thesis
      by (simp add: goto_with_retries_def attempts_range)
  next
    assume j: "j = 1"
    with f [of 0] d show ?thesis
      by (simp add: goto_with_retries_def attempts_range MAX_RETRIES_def RETRY_BACKOFF_BASE_def
        eval_nat_numeral)
  next
    assume j: "j = 2"
    with f [of 0] f [of 1] d show ?thesis
      by (simp add: goto_with_retries_def attempts_range MAX_RETRIES_def RETRY_BACKOFF_BASE_def
        eval_nat_numeral)
  next
    assume j: "j = 3"
    with f [of 0] f [of 1] f [of 2] d show ?thesis
      by (simp add: goto_with_retries_def attempts_range MAX_RETRIES_def RETRY_BACKOFF_BASE_def
        eval_nat_numeral)
  qed
qed

theorem goto_with_retries_backoff_witness:
  "goto_with_retries (\<lambda>n t. Inl n) \<lparr> calls = 0, document = Text [] \<rparr> (u ''x'') =
     ([Invoke (u ''x''), Goto (u ''x''), Sleep 2, Goto (u ''x''), Sleep 4, Goto (u ''x''),
       Sleep 8, Goto (u ''x'')],
      \<lparr> calls = 4, document = Text [] \<rparr>, Inl (NavigationError 3))
   \<and> goto_with_retries (\<lambda>n t. if n < 2 then Inl n else Inr (Text (u ''page'')))
       \<lparr> calls = 0, document = Text [] \<rparr> (u ''x'') =
     ([Invoke (u ''x''), Goto (u ''x''), Sleep 2, Goto (u ''x''), Sleep 4, Goto (u ''x'')],
      \<lparr> calls = 3, document = Text (u ''page'') \<rparr>, Inr ())"
  (is "?A \<and> ?B")
proof -
  let ?b = "\<lparr> calls = 0, document = Text [] \<rparr>"
  let ?W = "\<lambda>(n::nat) (t::ustr). (Inl n :: nat + node)"
  let ?V = "\<lambda>(n::nat) (t::ustr). if n < 2 then Inl n else Inr (Text (u ''page''))"
  have h: "\<forall>k<4. ?W (calls ?b + k) (u ''x'') = Inl ((\<lambda>k. k) k)" by simp
  from goto_with_retries_backoff [where W = ?W and b = ?b and target = "u ''x''"
      and e = "\<lambda>k. k"]
  have "(\<forall>k<4. ?W (calls ?b + k) (u ''x'') = Inl ((\<lambda>k. k) k)) \<longrightarrow>
      goto_with_retries ?W ?b (u ''x'') =
        ([Invoke (u ''x''), Goto (u ''x''), Sleep 2, Goto (u ''x''), Sleep 4, Goto (u ''x''),
          Sleep 8, Goto (u ''x'')],
         ?b \<lparr> calls := calls ?b + 4 \<rparr>, Inl (NavigationError ((\<lambda>k. k) 3)))"
    by (rule conjunct1)
  from this h have a: ?A by simp
  have g: "2 < (4::nat) \<and> (\<forall>k<2. ?V (calls ?b + k) (u ''x'') = Inl ((\<lambda>k. k) k))
      \<and> ?V (calls ?b + 2) (u ''x'') = Inr (Text (u ''page''))" by simp
  from goto_with_retries_backoff [where W = ?V and b = ?b and target = "u ''x''"
      and e = "\<lambda>k. k" and j = 2 and doc = "Text (u ''page'')"]
  have "2 < (4::nat) \<and> (\<forall>k<2. ?V (calls ?b + k) (u ''x'') = Inl ((\<lambda>k. k) k))
        \<and> ?V (calls ?b + 2) (u ''x'') = Inr (Text (u ''page'')) \<longrightarrow>
      goto_with_retries ?V ?b (u ''x'') =
        (Invoke (u ''x'') # concat (map (\<lambda>i. [Goto (u ''x''), Sleep (2 ^ (i + 1))]) [0..<2])
           @ [Goto (u ''x'')],
         \<lparr> calls = calls ?b + 2 + 1, document = Text (u ''page'') \<rparr>, Inr ())"
    by (rule conjunct2)
  from this g have "goto_with_retries ?V ?b (u ''x'') =
        (Invoke (u ''x'') # concat (map (\<lambda>i. [Goto (u ''x''), Sleep (2 ^ (i + 1))]) [0..<2])
           @ [Goto (u ''x'')],
         \<lparr> calls = calls ?b + 2 + 1, document = Text (u ''page'') \<rparr>, Inr ())"
    by (rule mp)
  moreover have "[0..<2] = [0, Suc 0]" by (simp add: eval_nat_numeral)
  ultimately have b: ?B by simp
  from a b show ?thesis by (rule conjI)
qed

section \<open>Traversal of a category\<close>

lemma invoked_append: "invoked (xs @ ys) = invoked xs @ invoked ys"
  by (induction xs rule: invoked.induct) simp_all

lemma goto_attempts_invoked:
  "goto_attempts W b target attempts = (evs, b', r) \<Longrightarrow> invoked evs = []"
proof (induction attempts arbitrary: b evs b' r)
  case Nil
  then show ?case by simp
next
  case (Cons attempt rest)
  then show ?case
    by (auto split: sum.splits if_splits prod.splits)
qed

lemma goto_with_retries_invoked:
  "goto_with_retries W b target = (evs, b', r) \<Longrightarrow> invoked evs = [target]"
  by (auto simp: goto_with_retries_def split: prod.splits dest: goto_attempts_invoked)

lemma scrape_pages_invoked:
  "scrape_pages W R category_name cap n b rows seen cur = (evs, b', r)
     \<Longrightarrow> distinct (invoked evs) \<and> set (invoked evs) \<inter> seen = {}"
proof (induction n arbitrary: b rows seen cur evs b' r)
  case 0
  then show ?case by simp
next
  case (Suc n)
  show ?case
  proof (cases cur)
    case None
    with Suc.prems show ?thesis by simp
  next
    case (Some current_url)
    show ?thesis
    proof (cases "current_url = [] \<or> current_url \<in> seen")
      case True
      with Suc.prems Some show ?thesis by auto
    next
      case False
      obtain evs1 b1 r1 where g: "goto_with_retries W b current_url = (evs1, b1, r1)"
        by (cases "goto_with_retries W b current_url") auto
      then have i1: "invoked evs1 = [current_url]" by (rule goto_with_retries_invoked)
      show ?thesis
      proof (cases "\<exists>rows' nxt. r1 = Inr ()
          \<and> scrape_links R (document b1) current_url category_name cap rows
               (find_all_a (document b1) [] proddetail_re) = Inr (rows', False)
          \<and> find_next_page_url R (document b1) current_url = Inr nxt")
        case True
        then obtain rows' nxt where
          c: "r1 = Inr ()"
          "scrape_links R (document b1) current_url category_name cap rows
               (find_all_a (document b1) [] proddetail_re) = Inr (rows', False)"
          "find_next_page_url R (document b1) current_url = Inr nxt" by blast
        obtain evs2 b2 r2 where
          p: "scrape_pages W R category_name cap n b1 rows' (insert current_url seen) nxt
                = (evs2, b2, r2)"
          by (cases "scrape_pages W R category_name cap n b1 rows' (insert current_url seen) nxt")
            auto
        from Suc.IH [OF p] have ih: "distinct (invoked evs2)"
          "set (invoked evs2) \<inter> insert current_url seen = {}" by simp_all
        from Suc.prems Some False g c p have "evs = evs1 @ evs2" by simp
        with i1 ih False show ?thesis by (auto simp: invoked_append)
      next
        case stop: False
        from Suc.prems Some False g stop have "evs = evs1"
          by (auto split: sum.splits prod.splits bool.splits)
        with i1 False show ?thesis by simp
      qed
    qed
  qed
qed

text \<open>
  Claim C8. In one traversal of a category, \<open>goto_with_retries\<close> is called at most once
  on each URL, whatever the pages contain and whatever the pagination walker
  returns: the URLs it is called on are pairwise distinct and none of them was in the
  visited set before; and an iteration whose current URL is absent, empty or already
  visited ends the loop without any navigation.
\<close>

theorem scrape_category_no_revisit:
  "distinct (invoked (fst (scrape_category W R b category_name start cap max_pages)))
   \<and> distinct (invoked (fst (scrape_pages W R category_name cap n b rows seen cur)))
   \<and> set (invoked (fst (scrape_pages W R category_name cap n b rows seen cur))) \<inter> seen = {}
   \<and> (cur = None \<or> cur = Some [] \<or> cur \<in> Some ` seen \<longrightarrow>
        scrape_pages W R category_name cap n b rows seen cur = ([], b, Inr rows))"
proof (intro conjI impI)
  obtain evs b' r where "scrape_category W R b category_name start cap max_pages = (evs, b', r)"
    by (cases "scrape_category W R b category_name start cap max_pages") auto
  then show "distinct (invoked (fst (scrape_category W R b category_name start cap max_pages)))"
    using scrape_pages_invoked [of W R category_name cap "nat max_pages" b "[]" "{}" "Some start"]
    by (simp add: scrape_category_def)
next
  obtain evs b' r where p: "scrape_pages W R category_name cap n b rows seen cur = (evs, b', r)"
    by (cases "scrape_pages W R category_name cap n b rows seen cur") auto
  from scrape_pages_invoked [OF p] p
  show "distinct (invoked (fst (scrape_pages W R category_name cap n b rows seen cur)))"
    and "set (invoked (fst (scrape_pages W R category_name cap n b rows seen cur))) \<inter> seen = {}"
    by simp_all
next
  assume "cur = None \<or> cur = Some [] \<or> cur \<in> Some ` seen"
  then show "scrape_pages W R category_name cap n b rows seen cur = ([], b, Inr rows)"
    by (cases n) auto
qed

theorem scrape_category_no_revisit_witness:
  "Some (u ''p'') \<in> Some ` {u ''p''}
   \<and> scrape_pages (\<lambda>n t. Inl n) ascii_runtime (u ''c'') None 3
         \<lparr> calls = 0, document = Text [] \<rparr> [] {u ''p''} (Some (u ''p''))
       = ([], \<lparr> calls = 0, document = Text [] \<rparr>, Inr [])"
proof -
  have h: "Some (u ''p'') = None \<or> Some (u ''p'') = Some [] \<or> Some (u ''p'') \<in> Some ` {u ''p''}"
    by simp
  from scrape_category_no_revisit [where cur = "Some (u ''p'')" and seen = "{u ''p''}"
      and W = "\<lambda>n t. Inl n" and R = ascii_runtime and category_name = "u ''c''"
      and cap = None and n = 3 and b = "\<lparr> calls = 0, document = Text [] \<rparr>"
      and rows = "[]" and start = "u ''p''" and max_pages = 3]
  have "Some (u ''p'') = None \<or> Some (u ''p'') = Some [] \<or> Some (u ''p'') \<in> Some ` {u ''p''}
      \<longrightarrow> scrape_pages (\<lambda>n t. Inl n) ascii_runtime (u ''c'') None 3
         \<lparr> calls = 0, document = Text [] \<rparr> [] {u ''p''} (Some (u ''p''))
       = ([], \<lparr> calls = 0, document = Text [] \<rparr>, Inr [])"
    by (elim conjE)
  from this h have "scrape_pages (\<lambda>n t. Inl n) ascii_runtime (u ''c'') None 3
         \<lparr> calls = 0, document = Text [] \<rparr> [] {u ''p''} (Some (u ''p''))
       = ([], \<lparr> calls = 0, document = Text [] \<rparr>, Inr [])"
    by (rule mp)
  then show ?thesis by simp
qed

end
